theory Spec2Isabelle
  imports Main "HOL-Library.Word"
begin

unbundle bit_operations_syntax

section \<open>Framing of compressed cfile blocks (kudu/cfile/block_compression.cc)\<close>

text \<open>
  The embedding follows \<^verbatim>\<open>block_compression.cc\<close> statement by statement.
  \<^item> \<^verbatim>\<open>size_t\<close> values are sizes of objects in memory and are modelled as \<open>nat\<close>;
    the narrowing to \<^verbatim>\<open>uint32_t\<close> at the two header fields is modelled with \<open>32 word\<close>.
  \<^item> A read-only input \<^verbatim>\<open>Slice\<close> is the list of the bytes it addresses. The
    out-parameter \<^verbatim>\<open>Slice *result\<close> is a pointer and a size.
  \<^item> Every effect of the source (codec calls, resize of the scratch buffer, header
    encode and decode, allocation, release and deletion of the output array) is logged
    as an event, in source order.
  \<^item> A codec that writes past the end of the destination it was handed has no defined
    behaviour in C++; the model returns \<open>None\<close> there.
\<close>

type_synonym byte = "8 word"

subsection \<open>Status\<close>

text \<open>
  \<^verbatim>\<open>Status\<close> (kudu/util/status.h) is not part of the file. The two constructors the
  file calls are kept by name, with the arguments the file gives them; every other
  non-OK status, which only a codec can produce, is \<open>OtherError\<close>.
\<close>

datatype status =
    OK
  | InvalidArgument string
  | Corruption string "byte list"
  | OtherError string

subsection \<open>Helpers the file calls\<close>

text \<open>\<^verbatim>\<open>StringPrintf\<close> with \<^verbatim>\<open>%lu\<close> and \<^verbatim>\<open>%u\<close>: the decimal digits of an unsigned value.\<close>

definition digit_char :: "nat \<Rightarrow> char" where
  "digit_char d = ''0123456789'' ! d"

function show_nat :: "nat \<Rightarrow> string" where
  "show_nat n = (if n < 10 then [digit_char n] else show_nat (n div 10) @ [digit_char (n mod 10)])"
  by pat_completeness auto
termination
  by (relation "measure id") auto

declare show_nat.simps [simp del]

text \<open>
  Modelled from the spec: \<^verbatim>\<open>Slice::ToDebugString\<close> (kudu/util/slice.cc) is missing.
  The spec describes its result as a bounded diagnostic excerpt, at most the first
  \<open>max_len\<close> bytes of the slice. The rendering of these bytes as text is not modelled.
\<close>

definition ToDebugString :: "byte list \<Rightarrow> nat \<Rightarrow> byte list" where
  "ToDebugString d max_len = take max_len d"

text \<open>
  Modelled from the spec: \<^verbatim>\<open>InlineEncodeFixed32\<close> and \<^verbatim>\<open>DecodeFixed32\<close>
  (kudu/util/coding-inl.h, kudu/util/coding.h) are missing. The spec fixes the layout:
  a \<^verbatim>\<open>uint32\<close>, little-endian, least significant byte first.
\<close>

definition fixed32_bytes :: "32 word \<Rightarrow> byte list" where
  "fixed32_bytes v =
     [ucast v, ucast (drop_bit 8 v), ucast (drop_bit 16 v), ucast (drop_bit 24 v)]"

text \<open>A write of \<open>ws\<close> at offset \<open>off\<close> of a buffer; the caller checks that it fits.\<close>

definition write_at :: "byte list \<Rightarrow> nat \<Rightarrow> byte list \<Rightarrow> byte list" where
  "write_at buf off ws = take off buf @ ws @ drop (off + length ws) buf"

definition InlineEncodeFixed32 :: "byte list \<Rightarrow> nat \<Rightarrow> 32 word \<Rightarrow> byte list" where
  "InlineEncodeFixed32 buf off v = write_at buf off (fixed32_bytes v)"

definition DecodeFixed32 :: "byte list \<Rightarrow> nat \<Rightarrow> 32 word" where
  "DecodeFixed32 d off =
     (ucast (d ! off)) OR push_bit 8 (ucast (d ! (off + 1)))
       OR push_bit 16 (ucast (d ! (off + 2))) OR push_bit 24 (ucast (d ! (off + 3)))"

subsection \<open>The codec\<close>

text \<open>
  \<^verbatim>\<open>CompressionCodec\<close> is an external capability with three operations; it is a
  parameter. \<open>Compress\<close> returns its status and the bytes it wrote at the destination
  (their number is \<^verbatim>\<open>*compressed_length\<close>); \<open>Uncompress\<close> returns its status
  and the bytes it wrote at the start of the output array.
\<close>

record codec =
  MaxCompressedLength :: "nat \<Rightarrow> nat"
  Compress :: "byte list list \<Rightarrow> status \<times> byte list"
  Uncompress :: "byte list \<Rightarrow> nat \<Rightarrow> status \<times> byte list"

subsection \<open>Slices, the scratch buffer, events\<close>

datatype ptr =
    BufferData
  | NewArray "byte list"
  | Elsewhere nat

text \<open>
  \<open>BufferData\<close> is \<^verbatim>\<open>buffer_.data()\<close>, a borrowed pointer to the start of the
  Builder's scratch buffer. \<open>NewArray bs\<close> is the array obtained from
  \<^verbatim>\<open>new uint8_t[n]\<close> and released to the caller, with its contents. \<open>Elsewhere a\<close>
  is any other address a caller may have left in \<^verbatim>\<open>*result\<close>.
\<close>

record slice =
  sdata :: ptr
  ssize :: nat

text \<open>
  Modelled from the spec: \<^verbatim>\<open>faststring\<close> (kudu/util/faststring.h) is missing. The
  spec says the scratch buffer is resized to the requested size, and that its storage is
  reused and grown, never shrunk. So \<open>resize\<close> sets the length to \<open>newsize\<close>, keeps
  the bytes that remain, and grows the capacity when it does not suffice. A byte that
  was never written is indeterminate: \<open>uninit\<close> gives the contents of such cells.
\<close>

record faststring =
  bytes :: "byte list"
  capacity :: nat

definition resize :: "(nat \<Rightarrow> byte) \<Rightarrow> faststring \<Rightarrow> nat \<Rightarrow> faststring" where
  "resize uninit s newsize =
     \<lparr>bytes = take newsize (bytes s) @ map uninit [length (bytes s)..<newsize],
      capacity = max (capacity s) newsize\<rparr>"

datatype event =
    CodecMaxCompressedLength nat
  | BufferResize nat
  | CodecCompress "byte list list" nat nat
  | EncodeFixed32 nat "32 word"
  | DecodeHeaderField nat
  | AllocArray nat
  | CodecUncompress "byte list" nat
  | DeleteArray
  | ReleaseArray

text \<open>
  \<open>CodecCompress slices off len\<close>: the codec's Compress is called on \<open>slices\<close> with
  destination \<^verbatim>\<open>buffer_.data() + off\<close>, while the buffer holds \<open>len\<close> bytes.
  \<open>DeleteArray\<close> is the destructor of the \<^verbatim>\<open>gscoped_array\<close> that still owns
  the output array; \<open>ReleaseArray\<close> is \<^verbatim>\<open>buffer.release()\<close>.
\<close>

subsection \<open>CompressedBlockBuilder\<close>

definition kHeaderReservedLength :: nat where
  "kHeaderReservedLength = 8"

record builder =
  bcodec :: codec
  compressed_size_limit :: nat
  buffer :: faststring

text \<open>The constructor stores the codec and the limit; the scratch buffer starts empty.\<close>

definition CompressedBlockBuilder :: "codec \<Rightarrow> nat \<Rightarrow> builder" where
  "CompressedBlockBuilder c size_limit =
     \<lparr>bcodec = c, compressed_size_limit = size_limit,
      buffer = \<lparr>bytes = [], capacity = 0\<rparr>\<rparr>"

record compress_ret =
  c_status :: status
  c_builder :: builder
  c_result :: slice
  c_trace :: "event list"

fun sum_sizes :: "nat \<Rightarrow> byte list list \<Rightarrow> nat" where
  "sum_sizes data_size [] = data_size"
| "sum_sizes data_size (d # ds) = sum_sizes (data_size + length d) ds"

definition Builder_Compress ::
  "(nat \<Rightarrow> byte) \<Rightarrow> builder \<Rightarrow> byte list list \<Rightarrow> slice \<Rightarrow> compress_ret option" where
  "Builder_Compress uninit b data_slices result =
    (let data_size = sum_sizes 0 data_slices;
         max_compressed_size = MaxCompressedLength (bcodec b) data_size;
         t1 = [CodecMaxCompressedLength data_size]
     in
     if max_compressed_size > compressed_size_limit b then
       Some \<lparr>c_status = InvalidArgument
                (''estimated max size '' @ show_nat max_compressed_size @
                 '' is greater than the expected '' @ show_nat (compressed_size_limit b)),
             c_builder = b, c_result = result, c_trace = t1\<rparr>
     else
       let buf1 = resize uninit (buffer b) (kHeaderReservedLength + max_compressed_size);
           t2 = t1 @ [BufferResize (kHeaderReservedLength + max_compressed_size),
                      CodecCompress data_slices kHeaderReservedLength (length (bytes buf1))];
           (st, written) = Compress (bcodec b) data_slices
       in
       if kHeaderReservedLength + length written > length (bytes buf1) then None
       else
         let buf2 = buf1\<lparr>bytes := write_at (bytes buf1) kHeaderReservedLength written\<rparr>;
             compressed_size = length written
         in
         if st \<noteq> OK then
           Some \<lparr>c_status = st, c_builder = b\<lparr>buffer := buf2\<rparr>,
                 c_result = result, c_trace = t2\<rparr>
         else
           let buf3 = buf2\<lparr>bytes := InlineEncodeFixed32 (bytes buf2) 0 (of_nat compressed_size)\<rparr>;
               buf4 = buf3\<lparr>bytes := InlineEncodeFixed32 (bytes buf3) 4 (of_nat data_size)\<rparr>
           in
           Some \<lparr>c_status = OK, c_builder = b\<lparr>buffer := buf4\<rparr>,
                 c_result = \<lparr>sdata = BufferData, ssize = compressed_size + kHeaderReservedLength\<rparr>,
                 c_trace = t2 @ [EncodeFixed32 0 (of_nat compressed_size),
                                 EncodeFixed32 4 (of_nat data_size)]\<rparr>)"

text \<open>The overload for one slice: a vector holding just that slice.\<close>

definition Builder_Compress1 ::
  "(nat \<Rightarrow> byte) \<Rightarrow> builder \<Rightarrow> byte list \<Rightarrow> slice \<Rightarrow> compress_ret option" where
  "Builder_Compress1 uninit b d result = Builder_Compress uninit b [d] result"

text \<open>
  Successive calls on one Builder: each call gets the Builder the previous call left and
  the caller's \<^verbatim>\<open>result\<close> variable as the previous call left it. The returns of
  all calls are collected in order.
\<close>

fun Compress_seq ::
  "(nat \<Rightarrow> byte) \<Rightarrow> builder \<Rightarrow> slice \<Rightarrow> byte list list list \<Rightarrow> compress_ret list option" where
  "Compress_seq uninit b result [] = Some []"
| "Compress_seq uninit b result (call # calls) =
     (case Builder_Compress uninit b call result of
        None \<Rightarrow> None
      | Some ret \<Rightarrow>
          (case Compress_seq uninit (c_builder ret) (c_result ret) calls of
             None \<Rightarrow> None
           | Some rets \<Rightarrow> Some (ret # rets)))"

text \<open>The bytes a slice into the scratch buffer addresses.\<close>

definition view_bytes :: "builder \<Rightarrow> slice \<Rightarrow> byte list" where
  "view_bytes b s = take (ssize s) (bytes (buffer b))"

subsection \<open>CompressedBlockDecoder\<close>

record decoder =
  dcodec :: codec
  uncompressed_size_limit :: nat

definition CompressedBlockDecoder :: "codec \<Rightarrow> nat \<Rightarrow> decoder" where
  "CompressedBlockDecoder c size_limit = \<lparr>dcodec = c, uncompressed_size_limit = size_limit\<rparr>"

record uncompress_ret =
  u_status :: status
  u_result :: slice
  u_trace :: "event list"

definition Decoder_Uncompress ::
  "(nat \<Rightarrow> byte) \<Rightarrow> decoder \<Rightarrow> byte list \<Rightarrow> slice \<Rightarrow> uncompress_ret option" where
  "Decoder_Uncompress uninit d block result =
    (if length block < kHeaderReservedLength then
       Some \<lparr>u_status = Corruption
                (''data size '' @ show_nat (length block) @
                 '' is not enough to contains the header. required '' @
                 show_nat kHeaderReservedLength @ '', buffer'')
                (ToDebugString block 50),
             u_result = result, u_trace = []\<rparr>
     else
       let compressed_size = DecodeFixed32 block 0;
           uncompressed_size = DecodeFixed32 block 4;
           t1 = [DecodeHeaderField 0, DecodeHeaderField 4]
       in
       if length block \<noteq> kHeaderReservedLength + unat compressed_size then
         Some \<lparr>u_status = Corruption
                  (''compressed size '' @ show_nat (unat compressed_size) @
                   '' does not match remaining length in buffer '' @
                   show_nat (length block - kHeaderReservedLength) @ '', buffer'')
                  (ToDebugString block 50),
               u_result = result, u_trace = t1\<rparr>
       else if unat uncompressed_size > uncompressed_size_limit d then
         Some \<lparr>u_status = Corruption
                  (''uncompressed size '' @ show_nat (unat compressed_size) @
                   '' overflows the maximum length '' @
                   show_nat (uncompressed_size_limit d) @ '', buffer'')
                  (ToDebugString block 50),
               u_result = result, u_trace = t1\<rparr>
       else
         let compressed = take (unat compressed_size) (drop kHeaderReservedLength block);
             array = map uninit [0..<unat uncompressed_size];
             t2 = t1 @ [AllocArray (unat uncompressed_size),
                        CodecUncompress compressed (unat uncompressed_size)];
             (st, written) = Uncompress (dcodec d) compressed (unat uncompressed_size)
         in
         if length written > length array then None
         else if st \<noteq> OK then
           Some \<lparr>u_status = st, u_result = result, u_trace = t2 @ [DeleteArray]\<rparr>
         else
           Some \<lparr>u_status = OK,
                 u_result = \<lparr>sdata = NewArray (write_at array 0 written),
                             ssize = unat uncompressed_size\<rparr>,
                 u_trace = t2 @ [ReleaseArray]\<rparr>)"


subsection \<open>Codecs and inputs for the examples\<close>

definition zero_fill :: "nat \<Rightarrow> byte" where
  "zero_fill i = 0"

definition no_result :: slice where
  "no_result = \<lparr>sdata = Elsewhere 0, ssize = 0\<rparr>"

text \<open>A codec that stores its input unchanged.\<close>

definition store_codec :: codec where
  "store_codec =
     \<lparr>MaxCompressedLength = (\<lambda>n. n),
      Compress = (\<lambda>slices. (OK, concat slices)),
      Uncompress = (\<lambda>input n.
         if length input = n then (OK, input)
         else (OtherError ''unable to uncompress the buffer'', []))\<rparr>"

text \<open>Run-length encoding: pairs of a count and a byte.\<close>

fun rle_encode :: "byte list \<Rightarrow> byte list" where
  "rle_encode [] = []"
| "rle_encode (x # xs) =
     (case rle_encode xs of
        c # y # rest \<Rightarrow>
          if y = x \<and> c < 255 then (c + 1) # y # rest else 1 # x # c # y # rest
      | _ \<Rightarrow> [1, x])"

fun rle_decode :: "byte list \<Rightarrow> byte list" where
  "rle_decode (c # x # rest) = replicate (unat c) x @ rle_decode rest"
| "rle_decode _ = []"

definition rle_codec :: codec where
  "rle_codec =
     \<lparr>MaxCompressedLength = (\<lambda>n. 2 * n),
      Compress = (\<lambda>slices. (OK, rle_encode (concat slices))),
      Uncompress = (\<lambda>input n.
         if length (rle_decode input) = n then (OK, rle_decode input)
         else (OtherError ''unable to uncompress the buffer'', []))\<rparr>"

text \<open>A codec whose Compress rejects every input with its own InvalidArgument status.\<close>

definition refusing_codec :: codec where
  "refusing_codec =
     \<lparr>MaxCompressedLength = (\<lambda>n. n),
      Compress = (\<lambda>slices. (InvalidArgument ''input not supported'', [])),
      Uncompress = (\<lambda>input n. (OtherError ''unable to uncompress the buffer'', []))\<rparr>"

section \<open>Auxiliary facts\<close>

lemma sum_sizes_concat: "sum_sizes n ds = n + length (concat ds)"
  by (induction ds arbitrary: n) auto

lemma length_fixed32_bytes [simp]: "length (fixed32_bytes v) = 4"
  by (simp add: fixed32_bytes_def)

lemma decode_word:
  "(ucast (ucast v :: byte) :: 32 word) OR push_bit 8 (ucast (ucast (drop_bit 8 v) :: byte))
     OR push_bit 16 (ucast (ucast (drop_bit 16 v) :: byte))
     OR push_bit 24 (ucast (ucast (drop_bit 24 v) :: byte)) = (v :: 32 word)"
proof (rule bit_word_eqI)
  fix n assume n: "n < LENGTH(32)"
  consider "n < 8" | "8 \<le> n" "n < 16" | "16 \<le> n" "n < 24" | "24 \<le> n" by linarith
  then show "bit (ucast (ucast v :: byte) OR push_bit 8 (ucast (ucast (drop_bit 8 v) :: byte))
       OR push_bit 16 (ucast (ucast (drop_bit 16 v) :: byte))
       OR push_bit 24 (ucast (ucast (drop_bit 24 v) :: byte)) :: 32 word) n = bit v n"
    using n by cases (auto simp add: bit_simps)
qed

lemma DecodeFixed32_append:
  "length p = off \<Longrightarrow> DecodeFixed32 (p @ fixed32_bytes v @ rest) off = v"
  by (simp add: DecodeFixed32_def fixed32_bytes_def nth_append decode_word)

lemma frame_bytes:
  assumes "8 + length w \<le> length buf"
  shows "InlineEncodeFixed32 (InlineEncodeFixed32 (write_at buf 8 w) 0 a) 4 c
         = fixed32_bytes a @ fixed32_bytes c @ w @ drop (8 + length w) buf"
  using assms by (simp add: InlineEncodeFixed32_def write_at_def)

lemma length_resize [simp]: "length (bytes (resize u s n)) = n"
  by (simp add: resize_def)

lemma capacity_resize [simp]: "capacity (resize u s n) = max (capacity s) n"
  by (simp add: resize_def)

text \<open>The little-endian layout in arithmetic: byte \<open>i\<close> carries the digit of weight \<open>256 ^ i\<close>.\<close>

lemma byte_or_push:
  fixes a :: nat
  assumes "a < 2 ^ k"
  shows "a OR push_bit k b = a + 2 ^ k * b"
proof -
  have a: "take_bit k a = a" using assms by (simp add: take_bit_nat_eq_self)
  have "a AND push_bit k b = 0"
  proof (rule bit_eqI)
    fix n
    have "bit a n \<Longrightarrow> n < k" using a by (metis bit_take_bit_iff)
    then show "bit (a AND push_bit k b) n = bit (0::nat) n"
      by (auto simp add: bit_and_iff bit_push_bit_iff)
  qed
  then have "a + push_bit k b = a OR push_bit k b"
    by (rule disjunctive_add_eq_or)
  then show ?thesis by (simp add: push_bit_eq_mult mult.commute)
qed

lemma unat_fixed32_bytes:
  "map unat (fixed32_bytes (of_nat n)) =
     [n mod 256, n div 256 mod 256, n div 65536 mod 256, n div 16777216 mod 256]"
proof -
  have "map unat (fixed32_bytes (of_nat n)) =
     [take_bit 8 n, take_bit 8 (drop_bit 8 n), take_bit 8 (drop_bit 16 n),
      take_bit 8 (drop_bit 24 n)]"
    by (simp add: fixed32_bytes_def unsigned_ucast_eq unsigned_of_nat unat_drop_bit_eq
        drop_bit_take_bit take_bit_take_bit)
  then show ?thesis
    by (simp add: take_bit_eq_mod drop_bit_eq_div)
qed

lemma take_bit_32_unat_byte: "take_bit 32 (unat (x :: byte)) = unat x"
proof -
  have "unat x < 2 ^ 8" using unsigned_less [of x, where 'a=nat] by simp
  then have "unat x < 2 ^ 32" by simp
  then show ?thesis by (rule take_bit_nat_eq_self)
qed

lemma unat_DecodeFixed32:
  "unat (DecodeFixed32 d off) =
     unat (d ! off) + 256 * unat (d ! (off + 1)) + 65536 * unat (d ! (off + 2))
       + 16777216 * unat (d ! (off + 3))"
proof -
  define a b c e where "a = unat (d ! off)" and "b = unat (d ! (off + 1))"
    and "c = unat (d ! (off + 2))" and "e = unat (d ! (off + 3))"
  have bnd: "a < 256" "b < 256" "c < 256" "e < 256"
    unfolding a_def b_def c_def e_def
    using unsigned_less [of "d ! off", where 'a=nat]
      unsigned_less [of "d ! (off + 1)", where 'a=nat]
      unsigned_less [of "d ! (off + 2)", where 'a=nat]
      unsigned_less [of "d ! (off + 3)", where 'a=nat]
    by simp_all
  have 1: "a OR push_bit 8 (b OR push_bit 8 (c OR push_bit 8 e)) =
           a + 256 * (b + 256 * (c + 256 * e))"
    using bnd by (simp add: byte_or_push [of _ 8, simplified])
  have 2: "a OR push_bit 8 b OR push_bit 16 c OR push_bit 24 e =
           a OR push_bit 8 (b OR push_bit 8 (c OR push_bit 8 e))"
    by (simp add: push_bit_or push_bit_push_bit or.assoc)
  have lt: "a + 256 * (b + 256 * (c + 256 * e)) < 2 ^ 32" using bnd by simp
  have "unat (DecodeFixed32 d off) =
        take_bit 32 (a OR push_bit 8 b OR push_bit 16 c OR push_bit 24 e)"
    by (simp add: DecodeFixed32_def unsigned_or_eq unsigned_push_bit_eq unsigned_ucast_eq
        a_def b_def c_def e_def take_bit_or take_bit_32_unat_byte)
  also have "\<dots> = a + 256 * (b + 256 * (c + 256 * e))"
    unfolding 2 1 using lt by (simp add: take_bit_nat_eq_self)
  finally show ?thesis by (simp add: a_def b_def c_def e_def)
qed

subsection \<open>The four ways through Compress\<close>

lemma Builder_Compress_reject:
  assumes "MaxCompressedLength (bcodec b) (length (concat data_slices)) > compressed_size_limit b"
  shows "Builder_Compress uninit b data_slices result =
     Some \<lparr>c_status = InvalidArgument
                (''estimated max size '' @
                 show_nat (MaxCompressedLength (bcodec b) (length (concat data_slices))) @
                 '' is greater than the expected '' @ show_nat (compressed_size_limit b)),
           c_builder = b, c_result = result,
           c_trace = [CodecMaxCompressedLength (length (concat data_slices))]\<rparr>"
  using assms by (simp add: Builder_Compress_def Let_def sum_sizes_concat)

lemma Builder_Compress_overrun:
  assumes "\<not> MaxCompressedLength (bcodec b) (length (concat data_slices)) > compressed_size_limit b"
    and "length (snd (Compress (bcodec b) data_slices)) >
           MaxCompressedLength (bcodec b) (length (concat data_slices))"
  shows "Builder_Compress uninit b data_slices result = None"
  using assms
  by (simp add: Builder_Compress_def Let_def sum_sizes_concat kHeaderReservedLength_def
      case_prod_beta)

lemma Builder_Compress_codec_error:
  assumes "\<not> MaxCompressedLength (bcodec b) (length (concat data_slices)) > compressed_size_limit b"
    and "length (snd (Compress (bcodec b) data_slices)) \<le>
           MaxCompressedLength (bcodec b) (length (concat data_slices))"
    and "fst (Compress (bcodec b) data_slices) \<noteq> OK"
  shows "Builder_Compress uninit b data_slices result =
     Some \<lparr>c_status = fst (Compress (bcodec b) data_slices),
           c_builder = b\<lparr>buffer :=
             (resize uninit (buffer b) (8 + MaxCompressedLength (bcodec b) (length (concat data_slices))))
               \<lparr>bytes := write_at
                  (bytes (resize uninit (buffer b)
                      (8 + MaxCompressedLength (bcodec b) (length (concat data_slices)))))
                  8 (snd (Compress (bcodec b) data_slices))\<rparr>\<rparr>,
           c_result = result,
           c_trace = [CodecMaxCompressedLength (length (concat data_slices)),
                      BufferResize (8 + MaxCompressedLength (bcodec b) (length (concat data_slices))),
                      CodecCompress data_slices 8
                        (8 + MaxCompressedLength (bcodec b) (length (concat data_slices)))]\<rparr>"
  using assms
  by (simp add: Builder_Compress_def Let_def sum_sizes_concat kHeaderReservedLength_def
      case_prod_beta)

lemma Builder_Compress_ok:
  assumes "\<not> MaxCompressedLength (bcodec b) (length (concat data_slices)) > compressed_size_limit b"
    and "length (snd (Compress (bcodec b) data_slices)) \<le>
           MaxCompressedLength (bcodec b) (length (concat data_slices))"
    and "fst (Compress (bcodec b) data_slices) = OK"
  shows "Builder_Compress uninit b data_slices result =
     Some \<lparr>c_status = OK,
           c_builder = b\<lparr>buffer :=
             (resize uninit (buffer b) (8 + MaxCompressedLength (bcodec b) (length (concat data_slices))))
               \<lparr>bytes :=
                  fixed32_bytes (of_nat (length (snd (Compress (bcodec b) data_slices)))) @
                  fixed32_bytes (of_nat (length (concat data_slices))) @
                  snd (Compress (bcodec b) data_slices) @
                  drop (8 + length (snd (Compress (bcodec b) data_slices)))
                    (bytes (resize uninit (buffer b)
                      (8 + MaxCompressedLength (bcodec b) (length (concat data_slices)))))\<rparr>\<rparr>,
           c_result = \<lparr>sdata = BufferData,
                        ssize = length (snd (Compress (bcodec b) data_slices)) + 8\<rparr>,
           c_trace = [CodecMaxCompressedLength (length (concat data_slices)),
                      BufferResize (8 + MaxCompressedLength (bcodec b) (length (concat data_slices))),
                      CodecCompress data_slices 8
                        (8 + MaxCompressedLength (bcodec b) (length (concat data_slices))),
                      EncodeFixed32 0 (of_nat (length (snd (Compress (bcodec b) data_slices)))),
                      EncodeFixed32 4 (of_nat (length (concat data_slices)))]\<rparr>"
  using assms
  by (simp add: Builder_Compress_def Let_def sum_sizes_concat kHeaderReservedLength_def
      frame_bytes case_prod_beta)

lemma show_nat_8: "show_nat 8 = ''8''"
  by (simp add: show_nat.simps digit_char_def)

subsection \<open>The ways through Uncompress\<close>

lemma Decoder_Uncompress_short:
  assumes "length block < 8"
  shows "Decoder_Uncompress uninit d block result =
     Some \<lparr>u_status = Corruption
              (''data size '' @ show_nat (length block) @
               '' is not enough to contains the header. required 8, buffer'')
              (ToDebugString block 50),
           u_result = result, u_trace = []\<rparr>"
  using assms by (simp add: Decoder_Uncompress_def kHeaderReservedLength_def show_nat_8)

lemma Decoder_Uncompress_mismatch:
  assumes "8 \<le> length block" and "length block \<noteq> 8 + unat (DecodeFixed32 block 0)"
  shows "Decoder_Uncompress uninit d block result =
     Some \<lparr>u_status = Corruption
              (''compressed size '' @ show_nat (unat (DecodeFixed32 block 0)) @
               '' does not match remaining length in buffer '' @
               show_nat (length block - 8) @ '', buffer'')
              (ToDebugString block 50),
           u_result = result, u_trace = [DecodeHeaderField 0, DecodeHeaderField 4]\<rparr>"
  using assms by (simp add: Decoder_Uncompress_def kHeaderReservedLength_def Let_def)

lemma Decoder_Uncompress_too_large:
  assumes "length block = 8 + unat (DecodeFixed32 block 0)"
    and "unat (DecodeFixed32 block 4) > uncompressed_size_limit d"
  shows "Decoder_Uncompress uninit d block result =
     Some \<lparr>u_status = Corruption
              (''uncompressed size '' @ show_nat (unat (DecodeFixed32 block 0)) @
               '' overflows the maximum length '' @
               show_nat (uncompressed_size_limit d) @ '', buffer'')
              (ToDebugString block 50),
           u_result = result, u_trace = [DecodeHeaderField 0, DecodeHeaderField 4]\<rparr>"
  using assms by (simp add: Decoder_Uncompress_def kHeaderReservedLength_def Let_def)

lemma Decoder_Uncompress_codec:
  assumes "length block = 8 + unat (DecodeFixed32 block 0)"
    and "\<not> unat (DecodeFixed32 block 4) > uncompressed_size_limit d"
  shows "Decoder_Uncompress uninit d block result =
     (let n = unat (DecodeFixed32 block 4);
          compressed = drop 8 block;
          t = [DecodeHeaderField 0, DecodeHeaderField 4, AllocArray n, CodecUncompress compressed n];
          st = fst (Uncompress (dcodec d) compressed n);
          written = snd (Uncompress (dcodec d) compressed n)
      in if length written > n then None
         else if st \<noteq> OK then Some \<lparr>u_status = st, u_result = result, u_trace = t @ [DeleteArray]\<rparr>
         else Some \<lparr>u_status = OK,
                    u_result = \<lparr>sdata = NewArray (written @ map uninit [length written..<n]), ssize = n\<rparr>,
                    u_trace = t @ [ReleaseArray]\<rparr>)"
  using assms
  apply (simp add: Decoder_Uncompress_def kHeaderReservedLength_def Let_def case_prod_beta write_at_def drop_map)
  done

lemma Decoder_Uncompress_OK_D:
  assumes "Decoder_Uncompress uninit d block result = Some ret" and "u_status ret = OK"
  shows "length block = 8 + unat (DecodeFixed32 block 0)"
    and "unat (DecodeFixed32 block 4) \<le> uncompressed_size_limit d"
    and "fst (Uncompress (dcodec d) (drop 8 block) (unat (DecodeFixed32 block 4))) = OK"
    and "length (snd (Uncompress (dcodec d) (drop 8 block) (unat (DecodeFixed32 block 4))))
           \<le> unat (DecodeFixed32 block 4)"
    and "ret = \<lparr>u_status = OK,
           u_result = \<lparr>sdata = NewArray
               (snd (Uncompress (dcodec d) (drop 8 block) (unat (DecodeFixed32 block 4))) @
                map uninit
                  [length (snd (Uncompress (dcodec d) (drop 8 block) (unat (DecodeFixed32 block 4))))
                    ..<unat (DecodeFixed32 block 4)]),
             ssize = unat (DecodeFixed32 block 4)\<rparr>,
           u_trace = [DecodeHeaderField 0, DecodeHeaderField 4,
                      AllocArray (unat (DecodeFixed32 block 4)),
                      CodecUncompress (drop 8 block) (unat (DecodeFixed32 block 4)),
                      ReleaseArray]\<rparr>"
proof -
  have len: "8 \<le> length block"
  proof (rule ccontr)
    assume "\<not> 8 \<le> length block"
    then have "length block < 8" by simp
    from Decoder_Uncompress_short [OF this, of uninit d result] assms
    show False by auto
  qed
  show eq: "length block = 8 + unat (DecodeFixed32 block 0)"
  proof (rule ccontr)
    assume "length block \<noteq> 8 + unat (DecodeFixed32 block 0)"
    from Decoder_Uncompress_mismatch [OF len this, of uninit d result] assms
    show False by auto
  qed
  show lim: "unat (DecodeFixed32 block 4) \<le> uncompressed_size_limit d"
  proof (rule ccontr)
    assume "\<not> unat (DecodeFixed32 block 4) \<le> uncompressed_size_limit d"
    then have "unat (DecodeFixed32 block 4) > uncompressed_size_limit d" by simp
    from Decoder_Uncompress_too_large [OF eq this, of uninit result] assms
    show False by auto
  qed
  note c = Decoder_Uncompress_codec [OF eq, of d uninit result]
  have nl: "\<not> unat (DecodeFixed32 block 4) > uncompressed_size_limit d" using lim by simp
  show "fst (Uncompress (dcodec d) (drop 8 block) (unat (DecodeFixed32 block 4))) = OK"
    using assms c [OF nl] by (auto simp: Let_def split: if_splits)
  show "length (snd (Uncompress (dcodec d) (drop 8 block) (unat (DecodeFixed32 block 4))))
           \<le> unat (DecodeFixed32 block 4)"
    using assms c [OF nl] by (auto simp: Let_def split: if_splits)
  show "ret = \<lparr>u_status = OK,
           u_result = \<lparr>sdata = NewArray
               (snd (Uncompress (dcodec d) (drop 8 block) (unat (DecodeFixed32 block 4))) @
                map uninit
                  [length (snd (Uncompress (dcodec d) (drop 8 block) (unat (DecodeFixed32 block 4))))
                    ..<unat (DecodeFixed32 block 4)]),
             ssize = unat (DecodeFixed32 block 4)\<rparr>,
           u_trace = [DecodeHeaderField 0, DecodeHeaderField 4,
                      AllocArray (unat (DecodeFixed32 block 4)),
                      CodecUncompress (drop 8 block) (unat (DecodeFixed32 block 4)),
                      ReleaseArray]\<rparr>"
    using assms c [OF nl] by (auto simp: Let_def split: if_splits)
qed

lemma Builder_Compress_error_result:
  assumes "Builder_Compress uninit b data_slices result = Some ret" and "c_status ret \<noteq> OK"
  shows "c_result ret = result"
  using assms
  by (auto simp: Builder_Compress_def Let_def case_prod_beta split: if_splits)

lemma Decoder_Uncompress_error_result:
  assumes "Decoder_Uncompress uninit d block result = Some ret" and "u_status ret \<noteq> OK"
  shows "u_result ret = result"
  using assms
  by (auto simp: Decoder_Uncompress_def Let_def case_prod_beta split: if_splits)

lemma replicate_2_3: "replicate 2 x = [x, x]" "replicate 3 x = [x, x, x]"
  by (simp_all add: eval_nat_numeral)

section \<open>The claims\<close>

text \<open>
  C5. For every input shorter than 8 bytes, Uncompress fails with a Corruption error.
  Its event log is empty: no header field is decoded, nothing is allocated, the codec
  is not called. The message gives the actual length and the required minimum 8, and the
  excerpt is \<open>ToDebugString block 50\<close>, at most the first 50 bytes of the input. The
  caller's result slice is returned as it was.
\<close>

theorem Uncompress_short_input:
  assumes "length block < 8"
  shows "Decoder_Uncompress uninit d block result =
     Some \<lparr>u_status = Corruption
              (''data size '' @ show_nat (length block) @
               '' is not enough to contains the header. required 8, buffer'')
              (ToDebugString block 50),
           u_result = result, u_trace = []\<rparr>
     \<and> ToDebugString block 50 = take 50 block
     \<and> length (ToDebugString block 50) \<le> 50"
  using assms Decoder_Uncompress_short [of block uninit d result]
  by (simp add: ToDebugString_def)

theorem Uncompress_short_input_witness:
  "length [1, 2, 3 :: byte] < 8 \<and>
   Decoder_Uncompress zero_fill (CompressedBlockDecoder store_codec 100) [1, 2, 3] no_result =
     Some \<lparr>u_status = Corruption
              ''data size 3 is not enough to contains the header. required 8, buffer''
              [1, 2, 3],
           u_result = no_result, u_trace = []\<rparr>"
  using Uncompress_short_input [of "[1, 2, 3]" zero_fill "CompressedBlockDecoder store_codec 100" no_result]
  by (simp add: show_nat.simps digit_char_def ToDebugString_def)

text \<open>
  C3. For every block of at least 8 bytes whose length differs from 8 plus the
  compressed size read little-endian from its first four bytes, Uncompress fails with a
  Corruption error. The event log holds the two header decodes only: the check comes
  before the allocation of the output array and before the codec is called.
\<close>

theorem Uncompress_length_mismatch:
  assumes "8 \<le> length block" and "length block \<noteq> 8 + unat (DecodeFixed32 block 0)"
  shows "Decoder_Uncompress uninit d block result =
     Some \<lparr>u_status = Corruption
              (''compressed size '' @ show_nat (unat (DecodeFixed32 block 0)) @
               '' does not match remaining length in buffer '' @
               show_nat (length block - 8) @ '', buffer'')
              (ToDebugString block 50),
           u_result = result, u_trace = [DecodeHeaderField 0, DecodeHeaderField 4]\<rparr>
     \<and> unat (DecodeFixed32 block 0) =
         unat (block ! 0) + 256 * unat (block ! 1) + 65536 * unat (block ! 2)
           + 16777216 * unat (block ! 3)"
proof (intro conjI)
  show "Decoder_Uncompress uninit d block result =
     Some \<lparr>u_status = Corruption
              (''compressed size '' @ show_nat (unat (DecodeFixed32 block 0)) @
               '' does not match remaining length in buffer '' @
               show_nat (length block - 8) @ '', buffer'')
              (ToDebugString block 50),
           u_result = result, u_trace = [DecodeHeaderField 0, DecodeHeaderField 4]\<rparr>"
    using assms by (rule Decoder_Uncompress_mismatch)
  show "unat (DecodeFixed32 block 0) =
         unat (block ! 0) + 256 * unat (block ! 1) + 65536 * unat (block ! 2)
           + 16777216 * unat (block ! 3)"
    using unat_DecodeFixed32 [of block 0] by (simp add: numeral_2_eq_2)
qed

theorem Uncompress_length_mismatch_witness:
  "8 \<le> length ([100, 0, 0, 0, 50, 0, 0, 0] @ replicate 50 (7 :: byte)) \<and>
   length ([100, 0, 0, 0, 50, 0, 0, 0] @ replicate 50 (7 :: byte)) \<noteq>
     8 + unat (DecodeFixed32 ([100, 0, 0, 0, 50, 0, 0, 0] @ replicate 50 7) 0) \<and>
   Decoder_Uncompress zero_fill (CompressedBlockDecoder store_codec 1000)
       ([100, 0, 0, 0, 50, 0, 0, 0] @ replicate 50 7) no_result =
     Some \<lparr>u_status = Corruption
              ''compressed size 100 does not match remaining length in buffer 50, buffer''
              ([100, 0, 0, 0, 50, 0, 0, 0] @ replicate 42 7),
           u_result = no_result, u_trace = [DecodeHeaderField 0, DecodeHeaderField 4]\<rparr>"
  using Uncompress_length_mismatch [of "[100, 0, 0, 0, 50, 0, 0, 0] @ replicate 50 7"
      zero_fill "CompressedBlockDecoder store_codec 1000" no_result]
  by (simp add: show_nat.simps digit_char_def ToDebugString_def DecodeFixed32_def)

text \<open>
  C4. The guard on the uncompressed size fails with Corruption before anything is
  allocated, but its message is built from \<^verbatim>\<open>compressed_size\<close>: on a well-sized
  block declaring compressed size 0 and uncompressed size 100, with limit 50, the message
  reads "uncompressed size 0", and the declared uncompressed size 100 is not in it.
\<close>

theorem Uncompress_limit_message_shows_compressed_size:
  "Decoder_Uncompress zero_fill (CompressedBlockDecoder store_codec 50)
       [0, 0, 0, 0, 100, 0, 0, 0] no_result =
     Some \<lparr>u_status = Corruption
              ''uncompressed size 0 overflows the maximum length 50, buffer''
              [0, 0, 0, 0, 100, 0, 0, 0],
           u_result = no_result, u_trace = [DecodeHeaderField 0, DecodeHeaderField 4]\<rparr>"
  by (simp add: Decoder_Uncompress_def CompressedBlockDecoder_def kHeaderReservedLength_def
      DecodeFixed32_def ToDebugString_def show_nat.simps digit_char_def)

text \<open>
  C7. Whenever Compress (either overload) or Uncompress returns a status other than OK,
  whether from its own checks or from the codec, the caller's result slice comes back
  exactly as it was passed in: \<^verbatim>\<open>*result\<close> is assigned only on the path that
  returns OK. (The Builder's scratch buffer, which is not the result, may have been
  resized and written by then.)
\<close>

theorem error_leaves_result_unmodified:
  "(Builder_Compress uninit b data_slices result = Some ret \<longrightarrow> c_status ret \<noteq> OK
      \<longrightarrow> c_result ret = result) \<and>
   (Builder_Compress1 uninit b data result = Some ret1 \<longrightarrow> c_status ret1 \<noteq> OK
      \<longrightarrow> c_result ret1 = result) \<and>
   (Decoder_Uncompress uninit d block result = Some uret \<longrightarrow> u_status uret \<noteq> OK
      \<longrightarrow> u_result uret = result)"
  using Builder_Compress_error_result [of uninit b data_slices result ret]
    Builder_Compress_error_result [of uninit b "[data]" result ret1]
    Decoder_Uncompress_error_result [of uninit d block result uret]
  by (simp add: Builder_Compress1_def)


theorem error_leaves_result_unmodified_witness:
  "Builder_Compress zero_fill (CompressedBlockBuilder store_codec 2) [[1, 2], [3, 4]] no_result =
     Some \<lparr>c_status = InvalidArgument ''estimated max size 4 is greater than the expected 2'',
           c_builder = CompressedBlockBuilder store_codec 2, c_result = no_result,
           c_trace = [CodecMaxCompressedLength 4]\<rparr> \<and>
   Builder_Compress1 zero_fill (CompressedBlockBuilder refusing_codec 20) [1, 2, 3, 4] no_result =
     Some \<lparr>c_status = InvalidArgument ''input not supported'',
           c_builder = (CompressedBlockBuilder refusing_codec 20)
             \<lparr>buffer := \<lparr>bytes = replicate 12 0, capacity = 12\<rparr>\<rparr>,
           c_result = no_result,
           c_trace = [CodecMaxCompressedLength 4, BufferResize 12,
                      CodecCompress [[1, 2, 3, 4]] 8 12]\<rparr> \<and>
   Decoder_Uncompress zero_fill (CompressedBlockDecoder store_codec 20)
       [2, 0, 0, 0, 3, 0, 0, 0, 1, 2] no_result =
     Some \<lparr>u_status = OtherError ''unable to uncompress the buffer'', u_result = no_result,
           u_trace = [DecodeHeaderField 0, DecodeHeaderField 4, AllocArray 3,
                      CodecUncompress [1, 2] 3, DeleteArray]\<rparr>"
proof -
  have 1: "Builder_Compress zero_fill (CompressedBlockBuilder store_codec 2) [[1, 2], [3, 4]] no_result =
     Some \<lparr>c_status = InvalidArgument ''estimated max size 4 is greater than the expected 2'',
           c_builder = CompressedBlockBuilder store_codec 2, c_result = no_result,
           c_trace = [CodecMaxCompressedLength 4]\<rparr>"
    by (simp add: Builder_Compress_def CompressedBlockBuilder_def store_codec_def
        show_nat.simps digit_char_def)
  have 2: "Builder_Compress1 zero_fill (CompressedBlockBuilder refusing_codec 20) [1, 2, 3, 4] no_result =
     Some \<lparr>c_status = InvalidArgument ''input not supported'',
           c_builder = (CompressedBlockBuilder refusing_codec 20)
             \<lparr>buffer := \<lparr>bytes = replicate 12 0, capacity = 12\<rparr>\<rparr>,
           c_result = no_result,
           c_trace = [CodecMaxCompressedLength 4, BufferResize 12,
                      CodecCompress [[1, 2, 3, 4]] 8 12]\<rparr>"
    by (simp add: Builder_Compress1_def Builder_Compress_def CompressedBlockBuilder_def
        refusing_codec_def kHeaderReservedLength_def resize_def write_at_def zero_fill_def
        Let_def numeral_eq_Suc upt_rec)
  have 3: "Decoder_Uncompress zero_fill (CompressedBlockDecoder store_codec 20)
       [2, 0, 0, 0, 3, 0, 0, 0, 1, 2] no_result =
     Some \<lparr>u_status = OtherError ''unable to uncompress the buffer'', u_result = no_result,
           u_trace = [DecodeHeaderField 0, DecodeHeaderField 4, AllocArray 3,
                      CodecUncompress [1, 2] 3, DeleteArray]\<rparr>"
    by (simp add: Decoder_Uncompress_def CompressedBlockDecoder_def kHeaderReservedLength_def
        DecodeFixed32_def store_codec_def Let_def)
  from error_leaves_result_unmodified [of zero_fill "CompressedBlockBuilder store_codec 2"
      "[[1, 2], [3, 4]]" no_result _ "[1, 2, 3, 4]" _ "CompressedBlockDecoder store_codec 20"
      "[2, 0, 0, 0, 3, 0, 0, 0, 1, 2]"]
  show ?thesis using 1 2 3 by simp
qed

text \<open>
  C8. Whenever Uncompress returns OK, the result points to the array allocated in this
  call by \<^verbatim>\<open>new uint8_t[uncompressed_size]\<close>; the array and the result slice have
  exactly the length decoded from bytes 4 to 7 of the block; and the array was released
  to the caller (the log ends with the release, and holds no deletion).
\<close>

theorem Uncompress_output_array:
  assumes "Decoder_Uncompress uninit d block result = Some ret" and "u_status ret = OK"
  shows "\<exists>contents.
           u_result ret = \<lparr>sdata = NewArray contents, ssize = unat (DecodeFixed32 block 4)\<rparr> \<and>
           length contents = unat (DecodeFixed32 block 4) \<and>
           u_trace ret = [DecodeHeaderField 0, DecodeHeaderField 4,
                          AllocArray (unat (DecodeFixed32 block 4)),
                          CodecUncompress (drop 8 block) (unat (DecodeFixed32 block 4)),
                          ReleaseArray]"
proof -
  note D = Decoder_Uncompress_OK_D [OF assms]
  let ?n = "unat (DecodeFixed32 block 4)"
  let ?w = "snd (Uncompress (dcodec d) (drop 8 block) ?n)"
  have "u_result ret = \<lparr>sdata = NewArray (?w @ map uninit [length ?w..<?n]), ssize = ?n\<rparr>"
    by (subst D(5)) simp
  moreover have "length (?w @ map uninit [length ?w..<?n]) = ?n"
    using D(4) by simp
  moreover have "u_trace ret = [DecodeHeaderField 0, DecodeHeaderField 4, AllocArray ?n,
                          CodecUncompress (drop 8 block) ?n, ReleaseArray]"
    by (subst D(5)) simp
  ultimately show ?thesis by blast
qed

theorem Uncompress_output_array_witness:
  "Decoder_Uncompress zero_fill (CompressedBlockDecoder rle_codec 20)
       [4, 0, 0, 0, 5, 0, 0, 0, 2, 7, 3, 9] no_result =
     Some \<lparr>u_status = OK, u_result = \<lparr>sdata = NewArray [7, 7, 9, 9, 9], ssize = 5\<rparr>,
           u_trace = [DecodeHeaderField 0, DecodeHeaderField 4, AllocArray 5,
                      CodecUncompress [2, 7, 3, 9] 5, ReleaseArray]\<rparr> \<and>
   unat (DecodeFixed32 [4, 0, 0, 0, 5, 0, 0, 0, 2, 7, 3, 9] 4) = 5"
proof -
  have e: "Decoder_Uncompress zero_fill (CompressedBlockDecoder rle_codec 20)
       [4, 0, 0, 0, 5, 0, 0, 0, 2, 7, 3, 9] no_result =
     Some \<lparr>u_status = OK, u_result = \<lparr>sdata = NewArray [7, 7, 9, 9, 9], ssize = 5\<rparr>,
           u_trace = [DecodeHeaderField 0, DecodeHeaderField 4, AllocArray 5,
                      CodecUncompress [2, 7, 3, 9] 5, ReleaseArray]\<rparr>"
    by (simp add: Decoder_Uncompress_def CompressedBlockDecoder_def kHeaderReservedLength_def
        DecodeFixed32_def rle_codec_def write_at_def Let_def replicate_2_3)
  from Uncompress_output_array [OF e] show ?thesis using e by simp
qed

end
